theory Spec2Isabelle
  imports Main "HOL-Library.Sublist"
begin

section \<open>The inference session of commitgen.cpp\<close>

text \<open>
  The development embeds \<^verbatim>\<open>CommitGen::generate\<close>, \<^verbatim>\<open>build_prompt\<close> and
  \<^verbatim>\<open>CommitGen::is_ready\<close> of \<^verbatim>\<open>src/commitgen.cpp\<close>. The inference library
  (\<^verbatim>\<open>llama.h\<close>) is not part of the repository: every library call the source makes is
  a field of the record \<open>engine\<close>, taken as a parameter, with the context and the
  sampler as abstract state types that the calls thread through.
\<close>

subsection \<open>Strings\<close>

text \<open>\<^verbatim>\<open>std::string\<close> is a sequence of bytes: \<open>string\<close>, a list of \<open>char\<close>.\<close>

definition nl :: char where
  "nl = CHR 0x0A"

definition tab :: char where
  "tab = CHR 0x09"

definition dquote :: char where
  "dquote = CHR 0x22"

text \<open>
  \<^verbatim>\<open>s.substr(pos, n)\<close>: the source only calls it with \<open>pos = 0\<close>, which never
  exceeds the size, so the \<^verbatim>\<open>std::out_of_range\<close> branch is unreachable there.
\<close>

definition substr :: "string \<Rightarrow> nat \<Rightarrow> nat \<Rightarrow> string" where
  "substr s pos n = take n (drop pos s)"

fun starts_with :: "string \<Rightarrow> string \<Rightarrow> bool" where
  "starts_with s [] = True"
| "starts_with [] (p # ps) = False"
| "starts_with (c # cs) (p # ps) = (c = p \<and> starts_with cs ps)"

text \<open>\<^verbatim>\<open>s.find(pat)\<close>: the first position where \<open>pat\<close> occurs, \<open>None\<close> for \<^verbatim>\<open>npos\<close>.\<close>

fun str_find :: "string \<Rightarrow> string \<Rightarrow> nat option" where
  "str_find [] pat = (if pat = [] then Some 0 else None)"
| "str_find (c # cs) pat =
     (if starts_with (c # cs) pat then Some 0 else map_option Suc (str_find cs pat))"

text \<open>\<^verbatim>\<open>s.find_first_not_of(chars)\<close>: the first position of a byte outside \<open>chars\<close>.\<close>

fun find_first_not_of :: "string \<Rightarrow> string \<Rightarrow> nat option" where
  "find_first_not_of [] chars = None"
| "find_first_not_of (c # cs) chars =
     (if c \<notin> set chars then Some 0 else map_option Suc (find_first_not_of cs chars))"

subsection \<open>The prompt\<close>

definition prompt_head_lines :: "string list" where
  "prompt_head_lines =
    [''<|im_start|>system'',
     ''You are a commit message generator. Write a clear, natural commit message.'',
     '''',
     ''Rules:'',
     ''- First line: short summary of what changed (max 72 chars)'',
     ''- Then a blank line'',
     ''- Then a paragraph explaining the changes in plain English'',
     ''- No prefixes like '' @ [dquote] @ ''feat:'' @ [dquote] @ '', '' @ [dquote] @ ''fix:''
        @ [dquote] @ '', etc.'',
     ''- No bullet points'',
     ''- No '' @ [dquote] @ ''I'' @ [dquote] @ '' statements - use passive voice or imperative'',
     ''- Write like documentation, not a personal note'',
     '''',
     ''Example:'',
     ''Disable playground build by default'',
     '''',
     ''The CMake configuration now has BUILD_PLAYGROUND disabled by default to streamline ''
        @ ''the build process. Users who need the playground examples can enable it manually ''
        @ ''in their local configuration.'',
     ''<|im_end|>'',
     ''<|im_start|>user'']"

definition prompt_tail_lines :: "string list" where
  "prompt_tail_lines = ['''', ''<|im_end|>'', ''<|im_start|>assistant'']"

text \<open>
  The first raw string literal ends with a newline after \<^verbatim>\<open><|im_start|>user\<close>; the
  second one starts with a newline and ends with one after
  \<^verbatim>\<open><|im_start|>assistant\<close>.
\<close>

definition unlines :: "string list \<Rightarrow> string" where
  "unlines ls = concat (map (\<lambda>l. l @ [nl]) ls)"

definition build_prompt :: "string \<Rightarrow> string" where
  "build_prompt diff = unlines prompt_head_lines @ diff @ unlines prompt_tail_lines"

subsection \<open>The inference library as a parameter\<close>

type_synonym llama_token = int

text \<open>
  The stages of the sampler chain in the order the source adds them. The two
  \<^verbatim>\<open>float\<close> literals are kept as decimal literals (digits and the number of decimals):
  \<open>Dec 3 1\<close> is \<^verbatim>\<open>0.3f\<close>.
\<close>

datatype dec_literal = Dec nat nat

datatype sampler_stage =
    Temp dec_literal
  | Top_p dec_literal nat
  | Dist nat

text \<open>
  \<^item> \<open>llama_memory_seq_rm c seq p0 p1\<close>: the context after
    \<^verbatim>\<open>llama_memory_seq_rm(llama_get_memory(ctx), seq, p0, p1)\<close>;
  \<^item> \<open>llama_tokenize text n_max add_special parse_special\<close>: the returned count (negative
    on failure) and the tokens written to the front of the buffer;
  \<^item> \<open>llama_decode c batch\<close>: the status and the context afterwards;
  \<^item> \<open>llama_sampler_chain stages\<close>: the state of a fresh chain;
  \<^item> \<open>llama_sampler_sample smp c idx\<close>: the sampled token and the sampler afterwards;
  \<^item> \<open>llama_token_to_piece tok size lstrip special\<close>: the returned length (negative on
    failure) and the bytes of the buffer afterwards.
\<close>

record ('ctx, 'smp) engine =
  llama_memory_seq_rm :: "'ctx \<Rightarrow> int \<Rightarrow> int \<Rightarrow> int \<Rightarrow> 'ctx"
  llama_tokenize :: "string \<Rightarrow> nat \<Rightarrow> bool \<Rightarrow> bool \<Rightarrow> int \<times> llama_token list"
  llama_decode :: "'ctx \<Rightarrow> llama_token list \<Rightarrow> int \<times> 'ctx"
  llama_sampler_chain :: "sampler_stage list \<Rightarrow> 'smp"
  llama_sampler_sample :: "'smp \<Rightarrow> 'ctx \<Rightarrow> int \<Rightarrow> llama_token \<times> 'smp"
  llama_vocab_is_eog :: "llama_token \<Rightarrow> bool"
  llama_token_to_piece :: "llama_token \<Rightarrow> nat \<Rightarrow> int \<Rightarrow> bool \<Rightarrow> int \<times> string"

subsection \<open>The session\<close>

text \<open>
  \<^verbatim>\<open>CommitGen::Impl\<close>: the readiness flag, the mutex (held by another caller or free)
  and the context. The model and the vocabulary are read-only after the load and live in
  the engine.
\<close>

record 'ctx session =
  ready :: bool
  mtx_held :: bool
  ctx :: 'ctx

definition is_ready :: "'ctx session \<Rightarrow> bool" where
  "is_ready s = ready s"

subsection \<open>The decode loop\<close>

definition stop_str :: string where
  "stop_str = ''<|im_end|>''"

text \<open>
  The variables of the loop. \<open>ls_samples\<close> is a ghost counter of the calls of
  \<^verbatim>\<open>llama_sampler_sample\<close>; nothing reads it.
\<close>

record ('ctx, 'smp) loop_state =
  ls_ctx :: 'ctx
  ls_sampler :: 'smp
  ls_result :: string
  ls_newlines :: nat
  ls_samples :: nat

datatype 'a ctl = Break 'a | Continue 'a

text \<open>
  Lines 142 to 148: the counter of consecutive newlines after a fragment, and whether the
  loop breaks.
\<close>

definition track_newlines :: "nat \<Rightarrow> string \<Rightarrow> nat \<times> bool" where
  "track_newlines consecutive_newlines piece =
     (if piece = [nl] then (consecutive_newlines + 1, consecutive_newlines + 1 \<ge> 3)
      else if find_first_not_of piece [CHR '' '', tab] \<noteq> None then (0, False)
      else (consecutive_newlines, False))"

text \<open>One iteration of the \<^verbatim>\<open>for\<close> loop, lines 123 to 152.\<close>

definition loop_body ::
  "('ctx, 'smp) engine \<Rightarrow> ('ctx, 'smp) loop_state \<Rightarrow> ('ctx, 'smp) loop_state ctl" where
  "loop_body E st =
     (case llama_sampler_sample E (ls_sampler st) (ls_ctx st) (- 1) of (new_token, smp) \<Rightarrow>
      let st1 = st\<lparr>ls_sampler := smp, ls_samples := Suc (ls_samples st)\<rparr> in
      if llama_vocab_is_eog E new_token then Break st1
      else
        case llama_token_to_piece E new_token 256 0 True of (len, buf) \<Rightarrow>
        if len < 0 then Continue st1
        else
          let piece = take (nat len) buf;
              result = ls_result st1 @ piece
          in case str_find result stop_str of
               Some pos \<Rightarrow> Break (st1\<lparr>ls_result := substr result 0 pos\<rparr>)
             | None \<Rightarrow>
                 (case track_newlines (ls_newlines st1) piece of (cn, stop) \<Rightarrow>
                  let st2 = st1\<lparr>ls_result := result, ls_newlines := cn\<rparr> in
                  if stop then Break st2
                  else
                    case llama_decode E (ls_ctx st2) [new_token] of (status, c) \<Rightarrow>
                    if status \<noteq> 0 then Break (st2\<lparr>ls_ctx := c\<rparr>)
                    else Continue (st2\<lparr>ls_ctx := c\<rparr>)))"

function decode_loop ::
  "('ctx, 'smp) engine \<Rightarrow> nat \<Rightarrow> ('ctx, 'smp) loop_state \<Rightarrow> ('ctx, 'smp) loop_state" where
  "decode_loop E i st =
     (if i < 512 then
        (case loop_body E st of
           Break st' \<Rightarrow> st'
         | Continue st' \<Rightarrow> decode_loop E (Suc i) st')
      else st)"
  by pat_completeness auto
termination
  by (relation "measure (\<lambda>(E, i, st). 512 - i)") auto

declare decode_loop.simps [simp del]

subsection \<open>Cleaning the result\<close>

text \<open>Lines 165 and 166: pop trailing newlines and spaces.\<close>

function trim_trailing :: "string \<Rightarrow> string" where
  "trim_trailing result =
     (if result \<noteq> [] \<and> (last result = nl \<or> last result = CHR '' '')
      then trim_trailing (butlast result) else result)"
  by pat_completeness auto
termination
  by (relation "measure length") auto

declare trim_trailing.simps [simp del]

text \<open>Lines 159 to 166.\<close>

definition clean_up :: "string \<Rightarrow> string" where
  "clean_up result =
     (let r1 = (if result \<noteq> [] \<and> hd result = dquote then tl result else result);
          r2 = (if r1 \<noteq> [] \<and> last r1 = dquote then butlast r1 else r1)
      in trim_trailing r2)"

subsection \<open>generate\<close>

text \<open>
  The early returns of \<open>generate\<close>. All three return the empty string to the caller.
\<close>

datatype gen_error = NotReady | TokenizeFailed | DecodeFailed

text \<open>
  \<^verbatim>\<open>std::vector\<close>: a buffer of \<open>n\<close> zero tokens with \<open>written\<close> at its front, and
  \<^verbatim>\<open>resize\<close>.
\<close>

definition vec_filled :: "nat \<Rightarrow> llama_token list \<Rightarrow> llama_token list" where
  "vec_filled n written = take n (written @ replicate (n - length written) 0)"

definition vec_resize :: "llama_token list \<Rightarrow> nat \<Rightarrow> llama_token list" where
  "vec_resize v n = take n v @ replicate (n - length v) 0"

definition sampler_stages :: "sampler_stage list" where
  "sampler_stages = [Temp (Dec 3 1), Top_p (Dec 9 1) 1, Dist 42]"

definition loop_init :: "('ctx, 'smp) engine \<Rightarrow> 'ctx \<Rightarrow> ('ctx, 'smp) loop_state" where
  "loop_init E c =
     \<lparr>ls_ctx = c, ls_sampler = llama_sampler_chain E sampler_stages,
      ls_result = [], ls_newlines = 0, ls_samples = 0\<rparr>"

text \<open>
  Lines 99 to 106: the count that \<^verbatim>\<open>llama_tokenize\<close> returns for the prompt of the
  truncated diff, and the vector of tokens after \<^verbatim>\<open>resize\<close> (read only when the count
  is not negative).
\<close>

definition tokenize_prompt :: "('ctx, 'smp) engine \<Rightarrow> string \<Rightarrow> int \<times> llama_token list" where
  "tokenize_prompt E diff =
     (let input = substr diff 0 4000;
          prompt = build_prompt input;
          n_max = length prompt + 16
      in case llama_tokenize E prompt n_max True True of (n_tokens, written) \<Rightarrow>
         (n_tokens, vec_resize (vec_filled n_max written) (nat n_tokens)))"

text \<open>
  \<open>generate_run\<close> is \<^verbatim>\<open>CommitGen::generate\<close> with its exit told apart: \<open>Inl\<close>
  for an early return, \<open>Inr\<close> for the return at the end. The value is \<open>None\<close> when the
  caller is suspended at the \<^verbatim>\<open>lock_guard\<close> because the mutex is held. The guard
  releases the mutex on every return, so the mutex is free afterwards as it was before.
\<close>

definition generate_run ::
  "('ctx, 'smp) engine \<Rightarrow> 'ctx session \<Rightarrow> string \<Rightarrow> ((gen_error + string) \<times> 'ctx session) option"
  where
  "generate_run E s diff =
     (if \<not> is_ready s then Some (Inl NotReady, s)
      else if mtx_held s then None
      else
        let c0 = llama_memory_seq_rm E (ctx s) 0 0 (- 1)
        in case tokenize_prompt E diff of (n_tokens, tokens) \<Rightarrow>
           if n_tokens < 0 then Some (Inl TokenizeFailed, s\<lparr>ctx := c0\<rparr>)
           else
             case llama_decode E c0 tokens of (status, c1) \<Rightarrow>
             if status \<noteq> 0 then Some (Inl DecodeFailed, s\<lparr>ctx := c1\<rparr>)
             else
               let st = decode_loop E 0 (loop_init E c1)
               in Some (Inr (clean_up (ls_result st)), s\<lparr>ctx := ls_ctx st\<rparr>))"

definition returned :: "gen_error + string \<Rightarrow> string" where
  "returned r = (case r of Inl e \<Rightarrow> [] | Inr msg \<Rightarrow> msg)"

definition generate ::
  "('ctx, 'smp) engine \<Rightarrow> 'ctx session \<Rightarrow> string \<Rightarrow> (string \<times> 'ctx session) option" where
  "generate E s diff = map_option (\<lambda>(r, s'). (returned r, s')) (generate_run E s diff)"

subsection \<open>A scripted engine\<close>

text \<open>
  An engine for concrete runs. The context is the list of the tokens decoded so far and
  the sampler is the number of draws made. The \<open>k\<close>-th draw returns token \<open>k\<close>, whose
  conversion is the \<open>k\<close>-th entry of the script (a length and the buffer); after the script
  the draw is the end-of-generation token \<open>- 1\<close>. The tokenizer reports \<open>tok\<close> whatever
  the text, and decoding fails on the batches that contain \<open>bad\<close>.
\<close>

definition frag :: "string \<Rightarrow> int \<times> string" where
  "frag s = (int (length s), s)"

definition script_engine ::
  "(int \<times> string) list \<Rightarrow> int \<times> llama_token list \<Rightarrow> llama_token \<Rightarrow> (llama_token list, nat) engine"
  where
  "script_engine script tok bad =
     \<lparr>llama_memory_seq_rm = (\<lambda>c seq p0 p1. []),
      llama_tokenize = (\<lambda>text n_max add_special parse_special. tok),
      llama_decode = (\<lambda>c batch. (if bad \<in> set batch then 1 else 0, c @ batch)),
      llama_sampler_chain = (\<lambda>stages. 0),
      llama_sampler_sample = (\<lambda>smp c idx. (if smp < length script then int smp else - 1, Suc smp)),
      llama_vocab_is_eog = (\<lambda>t. t < 0),
      llama_token_to_piece =
        (\<lambda>t size lstrip special. if 0 \<le> t \<and> nat t < length script then script ! nat t else (- 1, []))\<rparr>"

definition demo_session :: "llama_token list session" where
  "demo_session = \<lparr>ready = True, mtx_held = False, ctx = [7, 8]\<rparr>"

text \<open>
  An engine that never meets a stop condition: every draw is token \<open>0\<close>, whose
  fragment is \<open>a\<close>, and every decode succeeds.
\<close>

definition babble_engine :: "(llama_token list, nat) engine" where
  "babble_engine =
     \<lparr>llama_memory_seq_rm = (\<lambda>c seq p0 p1. []),
      llama_tokenize = (\<lambda>text n_max add_special parse_special. (1, [5])),
      llama_decode = (\<lambda>c batch. (0, c @ batch)),
      llama_sampler_chain = (\<lambda>stages. 0),
      llama_sampler_sample = (\<lambda>smp c idx. (0, Suc smp)),
      llama_vocab_is_eog = (\<lambda>t. t < 0),
      llama_token_to_piece = (\<lambda>t size lstrip special. (1, ''a''))\<rparr>"

text \<open>
  An engine whose tokenizer reports one token, the length of the text it is given, so that
  the context after a call shows how long the prompt was.
\<close>

definition measuring_engine :: "(llama_token list, nat) engine" where
  "measuring_engine =
     (script_engine [frag ''ok''] (1, [5]) 99)
       \<lparr>llama_tokenize := (\<lambda>text n_max add_special parse_special. (1, [int (length text)]))\<rparr>"




subsection \<open>Notions of the specification\<close>

text \<open>
  The prompt was tokenized and decoded: the session is ready, its mutex is free, the
  tokenizer returned a count that is not negative and the decode of the whole prompt
  returned status \<open>0\<close>, leaving the context \<open>c1\<close> to the decode loop.
\<close>

definition prompt_decoded :: "('ctx, 'smp) engine \<Rightarrow> 'ctx session \<Rightarrow> string \<Rightarrow> 'ctx \<Rightarrow> bool" where
  "prompt_decoded E s diff c1 =
     (is_ready s \<and> \<not> mtx_held s \<and>
      (case tokenize_prompt E diff of (n_tokens, tokens) \<Rightarrow>
         0 \<le> n_tokens \<and>
         llama_decode E (llama_memory_seq_rm E (ctx s) 0 0 (- 1)) tokens = (0, c1)))"

text \<open>
  The prompt in the specification's words: the instruction template around the first 4000
  characters of the diff.
\<close>

definition spec_prompt :: "string \<Rightarrow> string" where
  "spec_prompt diff = unlines prompt_head_lines @ take 4000 diff @ unlines prompt_tail_lines"

text \<open>
  Post-processing in the specification's words: strip one leading quote, strip one
  trailing quote, then trim all trailing newlines and spaces.
\<close>

definition strip_leading_quote :: "string \<Rightarrow> string" where
  "strip_leading_quote r = (case r of [] \<Rightarrow> [] | c # cs \<Rightarrow> if c = dquote then cs else r)"

definition strip_trailing_quote :: "string \<Rightarrow> string" where
  "strip_trailing_quote r = rev (strip_leading_quote (rev r))"

definition trim_trailing_ws :: "string \<Rightarrow> string" where
  "trim_trailing_ws r = rev (dropWhile (\<lambda>c. c = nl \<or> c = CHR '' '') (rev r))"

definition spec_post_process :: "string \<Rightarrow> string" where
  "spec_post_process r = trim_trailing_ws (strip_trailing_quote (strip_leading_quote r))"

text \<open>
  Whitespace in the sense of \<^verbatim>\<open>isspace\<close>: space, tab, newline, vertical tab, form feed
  and carriage return.
\<close>

definition whitespace_chars :: string where
  "whitespace_chars = [CHR '' '', tab, nl, CHR 0x0B, CHR 0x0C, CHR 0x0D]"

definition whitespace_only :: "string \<Rightarrow> bool" where
  "whitespace_only s = (find_first_not_of s whitespace_chars = None)"

section \<open>Facts about the string functions\<close>

lemma starts_with_prefix: "starts_with s p \<longleftrightarrow> prefix p s"
  by (induction s p rule: starts_with.induct) auto

lemma str_find_None_iff: "str_find s p = None \<longleftrightarrow> \<not> sublist p s"
  by (induction s) (auto simp: starts_with_prefix sublist_Cons_right)

lemma str_find_Some_split:
  "str_find s p = Some n \<Longrightarrow> \<exists>rest. s = take n s @ p @ rest"
proof (induction s arbitrary: n)
  case Nil
  then show ?case by (simp split: if_splits)
next
  case (Cons c cs)
  show ?case
  proof (cases "starts_with (c # cs) p")
    case True
    with Cons.prems have "n = 0" by simp
    moreover from True obtain rest where "c # cs = p @ rest"
      by (auto simp: starts_with_prefix prefix_def)
    ultimately show ?thesis by simp
  next
    case False
    with Cons.prems obtain m where m: "str_find cs p = Some m" "n = Suc m"
      by auto
    from Cons.IH [OF m(1)] obtain rest where "cs = take m cs @ p @ rest" ..
    with m(2) show ?thesis by (metis append_Cons take_Suc_Cons)
  qed
qed

lemma str_find_Some_first:
  "p \<noteq> [] \<Longrightarrow> str_find s p = Some n \<Longrightarrow> \<not> sublist p (take n s)"
proof (induction s arbitrary: n)
  case Nil
  then show ?case by (simp split: if_splits)
next
  case (Cons c cs)
  show ?case
  proof (cases "starts_with (c # cs) p")
    case True
    with Cons.prems show ?thesis by simp
  next
    case False
    with Cons.prems obtain m where m: "str_find cs p = Some m" "n = Suc m"
      by auto
    have "\<not> prefix p (c # take m cs)"
    proof
      assume "prefix p (c # take m cs)"
      moreover have "prefix (c # take m cs) (c # cs)"
        by (simp add: take_is_prefix)
      ultimately have "prefix p (c # cs)" by (rule prefix_order.trans)
      with False show False by (simp add: starts_with_prefix)
    qed
    moreover have "\<not> sublist p (take m cs)"
      using Cons.IH [OF Cons.prems(1) m(1)] .
    ultimately show ?thesis
      using m(2) by (simp add: sublist_Cons_right)
  qed
qed

lemma stop_str_nonempty: "stop_str \<noteq> []"
  by (simp add: stop_str_def)

lemma find_first_not_of_None_iff: "find_first_not_of s cs = None \<longleftrightarrow> set s \<subseteq> set cs"
  by (induction s) auto

section \<open>Facts about cleaning\<close>

lemma trim_trailing_dropWhile:
  "trim_trailing r = rev (dropWhile (\<lambda>c. c = nl \<or> c = CHR '' '') (rev r))"
proof (induction r rule: trim_trailing.induct)
  case (1 result)
  show ?case
  proof (cases "result \<noteq> [] \<and> (last result = nl \<or> last result = CHR '' '')")
    case True
    then obtain xs x where r: "result = xs @ [x]" and x: "x = nl \<or> x = CHR '' ''"
      by (metis append_butlast_last_id)
    have "trim_trailing result = trim_trailing (butlast result)"
      using True by (subst trim_trailing.simps) simp
    also have "\<dots> = rev (dropWhile (\<lambda>c. c = nl \<or> c = CHR '' '') (rev (butlast result)))"
      using "1" True by blast
    finally show ?thesis using r x by auto
  next
    case False
    then have "trim_trailing result = result"
      by (subst trim_trailing.simps) auto
    moreover have "rev (dropWhile (\<lambda>c. c = nl \<or> c = CHR '' '') (rev result)) = result"
    proof (cases result rule: rev_cases)
      case Nil
      then show ?thesis by simp
    next
      case (snoc ys y)
      with False show ?thesis by auto
    qed
    ultimately show ?thesis by simp
  qed
qed

lemma clean_up_spec: "clean_up r = spec_post_process r"
proof -
  have a: "(if r \<noteq> [] \<and> hd r = dquote then tl r else r) = strip_leading_quote r"
    by (cases r) (auto simp: strip_leading_quote_def)
  have b: "(if x \<noteq> [] \<and> last x = dquote then butlast x else x) = strip_trailing_quote x" for x
    by (cases x rule: rev_cases) (auto simp: strip_trailing_quote_def strip_leading_quote_def)
  show ?thesis
    unfolding clean_up_def spec_post_process_def trim_trailing_ws_def Let_def a b
    by (rule trim_trailing_dropWhile)
qed

lemma sublist_trim_trailing: "sublist (trim_trailing r) r"
  unfolding trim_trailing_dropWhile
  by (metis append_take_drop_id prefix_imp_sublist prefix_def rev_append rev_rev_ident takeWhile_dropWhile_id)

lemma sublist_clean_up: "sublist (clean_up r) r"
proof -
  let ?r1 = "if r \<noteq> [] \<and> hd r = dquote then tl r else r"
  let ?r2 = "if ?r1 \<noteq> [] \<and> last ?r1 = dquote then butlast ?r1 else ?r1"
  have "sublist ?r1 r"
    by (cases r) (auto simp: sublist_Cons_right)
  moreover have "sublist ?r2 ?r1"
    by (simp add: sublist_butlast)
  moreover have "sublist (trim_trailing ?r2) ?r2"
    by (rule sublist_trim_trailing)
  ultimately have "sublist (trim_trailing ?r2) r"
    by (meson sublist_order.order_trans)
  then show ?thesis by (simp add: clean_up_def Let_def)
qed

section \<open>Facts about the decode loop\<close>

lemma decode_loop_Break:
  "i < 512 \<Longrightarrow> loop_body E st = Break st' \<Longrightarrow> decode_loop E i st = st'"
  by (subst decode_loop.simps) simp

lemma decode_loop_Continue:
  "i < 512 \<Longrightarrow> loop_body E st = Continue st' \<Longrightarrow> decode_loop E i st = decode_loop E (Suc i) st'"
  by (subst decode_loop.simps) simp

lemma decode_loop_done: "\<not> i < 512 \<Longrightarrow> decode_loop E i st = st"
  by (subst decode_loop.simps) simp

text \<open>The outcome of one iteration, branch by branch.\<close>

lemma loop_body_conversion_failed:
  assumes "llama_sampler_sample E (ls_sampler st) (ls_ctx st) (- 1) = (tok, smp)"
    and "\<not> llama_vocab_is_eog E tok"
    and "llama_token_to_piece E tok 256 0 True = (len, buf)"
    and "len < 0"
  shows "loop_body E st = Continue (st\<lparr>ls_sampler := smp, ls_samples := Suc (ls_samples st)\<rparr>)"
  using assms by (simp add: loop_body_def)

lemma loop_body_marker:
  assumes "llama_sampler_sample E (ls_sampler st) (ls_ctx st) (- 1) = (tok, smp)"
    and "\<not> llama_vocab_is_eog E tok"
    and "llama_token_to_piece E tok 256 0 True = (len, buf)"
    and "0 \<le> len"
    and "str_find (ls_result st @ take (nat len) buf) stop_str = Some pos"
  shows "loop_body E st =
     Break (st\<lparr>ls_sampler := smp, ls_samples := Suc (ls_samples st),
               ls_result := take pos (ls_result st @ take (nat len) buf)\<rparr>)"
  using assms by (simp add: loop_body_def substr_def)

lemma loop_body_newline_stop:
  assumes "llama_sampler_sample E (ls_sampler st) (ls_ctx st) (- 1) = (tok, smp)"
    and "\<not> llama_vocab_is_eog E tok"
    and "llama_token_to_piece E tok 256 0 True = (len, buf)"
    and "0 \<le> len"
    and "str_find (ls_result st @ take (nat len) buf) stop_str = None"
    and "track_newlines (ls_newlines st) (take (nat len) buf) = (cn, True)"
  shows "loop_body E st =
     Break (st\<lparr>ls_sampler := smp, ls_samples := Suc (ls_samples st),
               ls_result := ls_result st @ take (nat len) buf, ls_newlines := cn\<rparr>)"
  using assms by (simp add: loop_body_def)

lemma loop_body_decode_failed:
  assumes "llama_sampler_sample E (ls_sampler st) (ls_ctx st) (- 1) = (tok, smp)"
    and "\<not> llama_vocab_is_eog E tok"
    and "llama_token_to_piece E tok 256 0 True = (len, buf)"
    and "0 \<le> len"
    and "str_find (ls_result st @ take (nat len) buf) stop_str = None"
    and "track_newlines (ls_newlines st) (take (nat len) buf) = (cn, False)"
    and "llama_decode E (ls_ctx st) [tok] = (status, c)"
    and "status \<noteq> 0"
  shows "loop_body E st =
     Break (st\<lparr>ls_sampler := smp, ls_samples := Suc (ls_samples st),
               ls_result := ls_result st @ take (nat len) buf, ls_newlines := cn,
               ls_ctx := c\<rparr>)"
  using assms by (simp add: loop_body_def)

text \<open>Every iteration draws exactly one token.\<close>

lemma loop_body_samples:
  "loop_body E st = Break st' \<or> loop_body E st = Continue st' \<Longrightarrow>
   ls_samples st' = Suc (ls_samples st)"
  by (auto simp: loop_body_def Let_def split: prod.splits if_splits option.splits)

lemma decode_loop_samples:
  "ls_samples (decode_loop E i st) \<le> ls_samples st + (512 - i)"
proof (induction E i st rule: decode_loop.induct)
  case (1 E i st)
  show ?case
  proof (cases "i < 512")
    case False
    then show ?thesis by (simp add: decode_loop_done)
  next
    case True
    show ?thesis
    proof (cases "loop_body E st")
      case (Break st')
      with True loop_body_samples [of E st st'] show ?thesis
        by (simp add: decode_loop_Break)
    next
      case (Continue st')
      from "1" [OF True Continue] have "ls_samples (decode_loop E (Suc i) st') \<le> ls_samples st' + (512 - Suc i)" .
      with True Continue loop_body_samples [of E st st'] show ?thesis
        by (simp add: decode_loop_Continue)
    qed
  qed
qed

text \<open>The accumulated result never holds the stop marker between iterations.\<close>

lemma loop_body_no_marker:
  assumes "\<not> sublist stop_str (ls_result st)"
    and "loop_body E st = Break st' \<or> loop_body E st = Continue st'"
  shows "\<not> sublist stop_str (ls_result st')"
  using assms stop_str_nonempty
  by (auto simp: loop_body_def Let_def substr_def str_find_None_iff
      split: prod.splits if_splits option.splits dest: str_find_Some_first)

lemma decode_loop_no_marker:
  "\<not> sublist stop_str (ls_result st) \<Longrightarrow> \<not> sublist stop_str (ls_result (decode_loop E i st))"
proof (induction E i st rule: decode_loop.induct)
  case (1 E i st)
  show ?case
  proof (cases "i < 512")
    case False
    with "1.prems" show ?thesis by (simp add: decode_loop_done)
  next
    case True
    show ?thesis
    proof (cases "loop_body E st")
      case (Break st')
      with True "1.prems" loop_body_no_marker [of st E st'] show ?thesis
        by (simp add: decode_loop_Break)
    next
      case (Continue st')
      with "1.prems" loop_body_no_marker [of st E st'] have "\<not> sublist stop_str (ls_result st')"
        by simp
      with "1.IH" [OF True Continue] True Continue show ?thesis
        by (simp add: decode_loop_Continue)
    qed
  qed
qed

section \<open>Facts about generate\<close>

lemma generate_run_decoded:
  assumes "prompt_decoded E s diff c1"
  shows "generate_run E s diff =
     Some (Inr (clean_up (ls_result (decode_loop E 0 (loop_init E c1)))),
           s\<lparr>ctx := ls_ctx (decode_loop E 0 (loop_init E c1))\<rparr>)"
  using assms
  by (auto simp: prompt_decoded_def generate_run_def Let_def split: prod.splits)

lemma generate_run_session:
  "generate_run E s diff = Some (r, s') \<Longrightarrow> \<exists>c. s' = s\<lparr>ctx := c\<rparr>"
proof -
  assume a: "generate_run E s diff = Some (r, s')"
  have "\<exists>c. s = s\<lparr>ctx := c\<rparr>"
    by (rule exI [of _ "ctx s"]) simp
  with a show ?thesis
    by (auto simp: generate_run_def Let_def split: prod.splits if_splits)
qed

lemma generate_run_clear_cong:
  assumes "is_ready s"
    and "llama_memory_seq_rm E c 0 0 (- 1) = llama_memory_seq_rm E (ctx s) 0 0 (- 1)"
  shows "generate_run E (s\<lparr>ctx := c\<rparr>) diff = generate_run E s diff"
  using assms
  by (simp add: generate_run_def is_ready_def Let_def split: prod.splits)

lemma generate_run_no_marker:
  "generate_run E s diff = Some (r, s') \<Longrightarrow> \<not> sublist stop_str (returned r)"
proof -
  assume a: "generate_run E s diff = Some (r, s')"
  have e: "\<not> sublist stop_str []" using stop_str_nonempty by simp
  have "\<not> sublist stop_str (clean_up (ls_result (decode_loop E 0 (loop_init E c))))" for c
  proof -
    have "\<not> sublist stop_str (ls_result (loop_init E c))"
      using e by (simp add: loop_init_def)
    then have "\<not> sublist stop_str (ls_result (decode_loop E 0 (loop_init E c)))"
      by (rule decode_loop_no_marker)
    then show ?thesis
      using sublist_clean_up sublist_order.order_trans by blast
  qed
  with a e show ?thesis
    by (auto simp: generate_run_def Let_def returned_def split: prod.splits if_splits)
qed

text \<open>The prompt handed to the tokenizer.\<close>

lemma spec_prompt_eq_iff: "spec_prompt d = spec_prompt d' \<longleftrightarrow> take 4000 d = take 4000 d'"
  by (simp add: spec_prompt_def)

lemma tokenize_prompt_spec:
  "tokenize_prompt E diff =
     (case llama_tokenize E (spec_prompt diff) (length (spec_prompt diff) + 16) True True of
        (n_tokens, written) \<Rightarrow>
          (n_tokens, vec_resize (vec_filled (length (spec_prompt diff) + 16) written) (nat n_tokens)))"
  by (simp add: tokenize_prompt_def spec_prompt_def build_prompt_def substr_def Let_def)

lemma length_prompt_template:
  "length (unlines prompt_head_lines) = 671" "length (unlines prompt_tail_lines) = 34"
  by (simp_all add: unlines_def prompt_head_lines_def prompt_tail_lines_def)

section \<open>The engine that never stops\<close>

lemma babble_no_marker:
  assumes "set r \<subseteq> {CHR ''a''}"
  shows "str_find (r @ ''a'') stop_str = None"
proof -
  have "\<not> sublist stop_str (r @ ''a'')"
  proof
    assume "sublist stop_str (r @ ''a'')"
    then have "set stop_str \<subseteq> set (r @ ''a'')"
      by (rule set_mono_sublist)
    moreover have "CHR ''<'' \<in> set stop_str"
      by (simp add: stop_str_def)
    ultimately have "CHR ''<'' \<in> set (r @ ''a'')"
      by blast
    with assms show False by auto
  qed
  then show ?thesis by (simp add: str_find_None_iff)
qed

lemma babble_body:
  assumes "set (ls_result st) \<subseteq> {CHR ''a''}"
  shows "loop_body babble_engine st =
     Continue (st\<lparr>ls_sampler := Suc (ls_sampler st), ls_samples := Suc (ls_samples st),
                  ls_result := ls_result st @ ''a'', ls_newlines := 0,
                  ls_ctx := ls_ctx st @ [0]\<rparr>)"
  using babble_no_marker [OF assms]
  by (simp add: loop_body_def babble_engine_def track_newlines_def nl_def tab_def)

lemma babble_loop:
  "set (ls_result st) \<subseteq> {CHR ''a''} \<Longrightarrow>
   ls_samples (decode_loop babble_engine i st) = ls_samples st + (512 - i)"
proof (induction "512 - i" arbitrary: i st)
  case 0
  then show ?case by (simp add: decode_loop_done)
next
  case (Suc k)
  then have i: "i < 512" by simp
  let ?st = "st\<lparr>ls_sampler := Suc (ls_sampler st), ls_samples := Suc (ls_samples st),
                  ls_result := ls_result st @ ''a'', ls_newlines := 0,
                  ls_ctx := ls_ctx st @ [0]\<rparr>"
  have "decode_loop babble_engine i st = decode_loop babble_engine (Suc i) ?st"
    using i babble_body [OF Suc.prems] by (rule decode_loop_Continue)
  moreover have "ls_samples (decode_loop babble_engine (Suc i) ?st) = ls_samples ?st + (512 - Suc i)"
    using Suc.hyps(2) Suc.prems by (intro Suc.hyps(1)) auto
  ultimately show ?case using i by simp
qed

lemma generate_returns:
  "generate E s diff = None \<longleftrightarrow> is_ready s \<and> mtx_held s"
  by (simp add: generate_def generate_run_def Let_def split: prod.splits)

section \<open>Unfolding a concrete run\<close>

lemmas run_defs =
  generate_def generate_run_def demo_session_def is_ready_def script_engine_def
  frag_def Let_def tokenize_prompt_def vec_resize_def vec_filled_def loop_init_def
  decode_loop.simps loop_body_def stop_str_def track_newlines_def nl_def tab_def substr_def
  clean_up_def trim_trailing.simps dquote_def returned_def

section \<open>The claims\<close>

text \<open>
  C1. For every diff, \<open>generate\<close> on a session whose readiness flag is not true returns
  the empty string at once: it takes the first return, before the \<^verbatim>\<open>lock_guard\<close>, so
  it returns also while the mutex is held, it signals no error (all it returns is the
  string), and the session it leaves is the session it found.
\<close>

theorem generate_not_ready:
  "\<not> is_ready s \<Longrightarrow>
   generate E s diff = Some ([], s) \<and> generate_run E s diff = Some (Inl NotReady, s)"
  by (simp add: generate_def generate_run_def returned_def)

theorem generate_not_ready_witness:
  "\<not> is_ready \<lparr>ready = False, mtx_held = True, ctx = [7, 8]\<rparr> \<and>
   generate babble_engine \<lparr>ready = False, mtx_held = True, ctx = [7, 8]\<rparr> ''diff --git''
     = Some ([], \<lparr>ready = False, mtx_held = True, ctx = [7, 8]\<rparr>)"
  using generate_not_ready [of "\<lparr>ready = False, mtx_held = True, ctx = [7, 8]\<rparr>"
      babble_engine "''diff --git''"]
  by (simp add: is_ready_def)

text \<open>
  C2. Three fragments in a row that are each one newline stop the loop: the stream
  \<open>ok\<close>, newline, newline, newline, \<open>ignored\<close> returns \<open>ok\<close>. But a
  whitespace-only fragment is meant never to reset the counter of consecutive newlines, and
  line 146 resets it on every fragment that has a character other than space and tab and
  is not the single newline. A fragment of two newlines therefore sets the counter from 2
  to 0, and the streams \<open>a\<close>, newline, newline, two newlines, newline, \<open>b\<close> and
  \<open>a\<close>, three times two newlines, \<open>b\<close> run through five and six consecutive
  newlines on to \<open>b\<close>, where the comment of line 141 has the loop stop after three
  consecutive newlines.
\<close>

theorem whitespace_fragment_resets_counter:
  "whitespace_only [nl, nl] \<and> track_newlines 2 [nl, nl] = (0, False) \<and>
   generate (script_engine [frag ''ok'', frag [nl], frag [nl], frag [nl], frag ''ignored'']
               (1, [5]) 99) demo_session ''diff --git''
     = Some (''ok'', demo_session\<lparr>ctx := [5, 0, 1, 2]\<rparr>) \<and>
   generate (script_engine [frag ''a'', frag [nl], frag [nl], frag [nl, nl], frag [nl], frag ''b'']
               (1, [5]) 99) demo_session ''diff --git''
     = Some (''a'' @ [nl, nl, nl, nl, nl] @ ''b'', demo_session\<lparr>ctx := [5, 0, 1, 2, 3, 4, 5]\<rparr>) \<and>
   generate (script_engine [frag ''a'', frag [nl, nl], frag [nl, nl], frag [nl, nl], frag ''b'']
               (1, [5]) 99) demo_session ''diff --git''
     = Some (''a'' @ [nl, nl, nl, nl, nl, nl] @ ''b'', demo_session\<lparr>ctx := [5, 0, 1, 2, 3, 4]\<rparr>)"
proof (intro conjI)
  show "whitespace_only [nl, nl]"
    by (simp add: whitespace_only_def whitespace_chars_def)
  show "track_newlines 2 [nl, nl] = (0, False)"
    by (simp add: track_newlines_def nl_def tab_def)
qed (simp_all add: run_defs)

text \<open>
  C3. Let the prompt be tokenized and decoded and let the decode loop stand at iteration
  \<open>i\<close> in state \<open>st\<close>. If the token drawn there is not an end-of-generation token and its
  conversion returns a negative length, the iteration appends nothing and decodes nothing:
  the loop goes on to iteration \<open>i + 1\<close> with the result, the context and the newline
  counter it had, where later tokens are converted, appended and decoded as usual. The
  call does not fail: \<open>generate\<close> returns the cleaned result of the loop.
\<close>

theorem conversion_failure_skips_append:
  assumes "prompt_decoded E s diff c1"
    and "decode_loop E 0 (loop_init E c1) = decode_loop E i st"
    and "i < 512"
    and "llama_sampler_sample E (ls_sampler st) (ls_ctx st) (- 1) = (tok, smp)"
    and "\<not> llama_vocab_is_eog E tok"
    and "llama_token_to_piece E tok 256 0 True = (len, buf)"
    and "len < 0"
  shows "loop_body E st = Continue (st\<lparr>ls_sampler := smp, ls_samples := Suc (ls_samples st)\<rparr>) \<and>
    decode_loop E i st =
      decode_loop E (Suc i) (st\<lparr>ls_sampler := smp, ls_samples := Suc (ls_samples st)\<rparr>) \<and>
    generate_run E s diff =
      Some (Inr (clean_up (ls_result (decode_loop E (Suc i)
                   (st\<lparr>ls_sampler := smp, ls_samples := Suc (ls_samples st)\<rparr>)))),
            s\<lparr>ctx := ls_ctx (decode_loop E (Suc i)
                   (st\<lparr>ls_sampler := smp, ls_samples := Suc (ls_samples st)\<rparr>))\<rparr>)"
proof -
  let ?st = "st\<lparr>ls_sampler := smp, ls_samples := Suc (ls_samples st)\<rparr>"
  have body: "loop_body E st = Continue ?st"
    using assms(4-7) by (rule loop_body_conversion_failed)
  with assms(3) have step: "decode_loop E i st = decode_loop E (Suc i) ?st"
    by (rule decode_loop_Continue)
  with assms(2) have "decode_loop E 0 (loop_init E c1) = decode_loop E (Suc i) ?st"
    by simp
  with generate_run_decoded [OF assms(1)] body step show ?thesis
    by simp
qed

theorem conversion_failure_skips_append_witness:
  "generate_run (script_engine [frag ''ok'', (- 1, ''zz''), frag ''!''] (1, [5]) 99)
      demo_session ''diff --git''
     = Some (Inr ''ok!'', demo_session\<lparr>ctx := [5, 0, 2]\<rparr>) \<and>
   loop_body (script_engine [frag ''ok'', (- 1, ''zz''), frag ''!''] (1, [5]) 99)
      \<lparr>ls_ctx = [5, 0], ls_sampler = 1, ls_result = ''ok'', ls_newlines = 0, ls_samples = 1\<rparr>
     = Continue \<lparr>ls_ctx = [5, 0], ls_sampler = 2, ls_result = ''ok'', ls_newlines = 0,
                 ls_samples = 2\<rparr>"
proof -
  let ?E = "script_engine [frag ''ok'', (- 1, ''zz''), frag ''!''] (1, [5]) 99"
  let ?st = "\<lparr>ls_ctx = [5, 0], ls_sampler = 1, ls_result = ''ok'', ls_newlines = 0,
              ls_samples = 1\<rparr> :: (llama_token list, nat) loop_state"
  have h1: "prompt_decoded ?E demo_session ''diff --git'' [5]"
    by (simp add: prompt_decoded_def run_defs)
  have h2: "decode_loop ?E 0 (loop_init ?E [5]) = decode_loop ?E 1 ?st"
    by (simp add: run_defs)
  have h3: "(1::nat) < 512"
    by simp
  have h4: "llama_sampler_sample ?E (ls_sampler ?st) (ls_ctx ?st) (- 1) = (1, 2)"
    by (simp add: script_engine_def)
  have h5: "\<not> llama_vocab_is_eog ?E 1"
    by (simp add: script_engine_def)
  have h6: "llama_token_to_piece ?E 1 256 0 True = (- 1, ''zz'')"
    by (simp add: script_engine_def)
  have h7: "(- 1 :: int) < 0"
    by simp
  note T = conversion_failure_skips_append [OF h1 h2 h3 h4 h5 h6 h7]
  have fin: "decode_loop ?E (Suc 1) (?st\<lparr>ls_sampler := 2, ls_samples := Suc (ls_samples ?st)\<rparr>)
      = \<lparr>ls_ctx = [5, 0, 2], ls_sampler = 4, ls_result = ''ok!'', ls_newlines = 0, ls_samples = 4\<rparr>"
    by (simp add: run_defs)
  from T fin show ?thesis
    by (simp add: demo_session_def clean_up_def trim_trailing.simps dquote_def nl_def)
qed

text \<open>
  C4. Let the prompt be tokenized and decoded and let the decode loop stand at iteration
  \<open>i\<close> in state \<open>st\<close>. If the result with the fragment drawn there appended contains
  the stop marker, the loop stops with the text before the first occurrence of the marker
  (the marked text is that prefix, the marker and a rest), without decoding the token, and
  \<open>generate\<close> returns that prefix, cleaned; it does not contain the marker. Indeed no
  string that \<open>generate\<close> returns, in any run, contains the marker.
\<close>

theorem stop_marker_truncates:
  assumes "prompt_decoded E s diff c1"
    and "decode_loop E 0 (loop_init E c1) = decode_loop E i st"
    and "i < 512"
    and "llama_sampler_sample E (ls_sampler st) (ls_ctx st) (- 1) = (tok, smp)"
    and "\<not> llama_vocab_is_eog E tok"
    and "llama_token_to_piece E tok 256 0 True = (len, buf)"
    and "0 \<le> len"
    and "str_find (ls_result st @ take (nat len) buf) stop_str = Some pos"
  shows "decode_loop E i st =
      st\<lparr>ls_sampler := smp, ls_samples := Suc (ls_samples st),
         ls_result := take pos (ls_result st @ take (nat len) buf)\<rparr> \<and>
    (\<exists>rest. ls_result st @ take (nat len) buf =
       take pos (ls_result st @ take (nat len) buf) @ stop_str @ rest) \<and>
    \<not> sublist stop_str (take pos (ls_result st @ take (nat len) buf)) \<and>
    generate E s diff =
      Some (clean_up (take pos (ls_result st @ take (nat len) buf)), s\<lparr>ctx := ls_ctx st\<rparr>) \<and>
    str_find (clean_up (take pos (ls_result st @ take (nat len) buf))) stop_str = None \<and>
    (generate E' s0 diff' = Some (out, s') \<longrightarrow> str_find out stop_str = None)"
proof (intro conjI impI)
  let ?r = "ls_result st @ take (nat len) buf"
  let ?st = "st\<lparr>ls_sampler := smp, ls_samples := Suc (ls_samples st), ls_result := take pos ?r\<rparr>"
  have "loop_body E st = Break ?st"
    using assms(4-8) by (rule loop_body_marker)
  with assms(3) show step: "decode_loop E i st = ?st"
    by (rule decode_loop_Break)
  with assms(2) have "decode_loop E 0 (loop_init E c1) = ?st"
    by simp
  with generate_run_decoded [OF assms(1)]
  show "generate E s diff = Some (clean_up (take pos ?r), s\<lparr>ctx := ls_ctx st\<rparr>)"
    by (simp add: generate_def returned_def)
  show "\<exists>rest. ?r = take pos ?r @ stop_str @ rest"
    using assms(8) by (rule str_find_Some_split)
  show first: "\<not> sublist stop_str (take pos ?r)"
    using stop_str_nonempty assms(8) by (rule str_find_Some_first)
  have "sublist (clean_up (take pos ?r)) (take pos ?r)"
    by (rule sublist_clean_up)
  with first have "\<not> sublist stop_str (clean_up (take pos ?r))"
    using sublist_order.order_trans by blast
  then show "str_find (clean_up (take pos ?r)) stop_str = None"
    by (simp add: str_find_None_iff)
next
  assume "generate E' s0 diff' = Some (out, s')"
  then obtain r where "generate_run E' s0 diff' = Some (r, s')" and "out = returned r"
    by (auto simp: generate_def)
  then show "str_find out stop_str = None"
    using generate_run_no_marker [of E' s0 diff' r s'] by (simp add: str_find_None_iff)
qed

theorem stop_marker_truncates_witness:
  "str_find ''Fix bug<|im_end|>more text'' stop_str = Some 7 \<and>
   generate (script_engine [frag ''Fix bug<|im'', frag ''_end|>more text'', frag ''x''] (1, [5]) 99)
      demo_session ''diff --git''
     = Some (''Fix bug'', demo_session\<lparr>ctx := [5, 0]\<rparr>) \<and>
   str_find ''Fix bug'' stop_str = None"
proof -
  let ?E = "script_engine [frag ''Fix bug<|im'', frag ''_end|>more text'', frag ''x''] (1, [5]) 99"
  let ?st = "\<lparr>ls_ctx = [5, 0], ls_sampler = 1, ls_result = ''Fix bug<|im'', ls_newlines = 0,
              ls_samples = 1\<rparr> :: (llama_token list, nat) loop_state"
  have h1: "prompt_decoded ?E demo_session ''diff --git'' [5]"
    by (simp add: prompt_decoded_def run_defs)
  have h2: "decode_loop ?E 0 (loop_init ?E [5]) = decode_loop ?E 1 ?st"
    by (simp add: run_defs)
  have h3: "(1::nat) < 512"
    by simp
  have h4: "llama_sampler_sample ?E (ls_sampler ?st) (ls_ctx ?st) (- 1) = (1, 2)"
    by (simp add: script_engine_def)
  have h5: "\<not> llama_vocab_is_eog ?E 1"
    by (simp add: script_engine_def)
  have h6: "llama_token_to_piece ?E 1 256 0 True = (15, ''_end|>more text'')"
    by (simp add: script_engine_def frag_def)
  have h7: "(0::int) \<le> 15"
    by simp
  have h8: "str_find (ls_result ?st @ take (nat 15) ''_end|>more text'') stop_str = Some 7"
    by (simp add: stop_str_def)
  note T = stop_marker_truncates [OF h1 h2 h3 h4 h5 h6 h7 h8,
      of ?E demo_session "''diff --git''" "''Fix bug''" "demo_session\<lparr>ctx := [5, 0]\<rparr>"]
  have c: "clean_up ''Fix bug'' = ''Fix bug''"
    by (simp add: clean_up_def trim_trailing.simps dquote_def nl_def)
  from T h8 c show ?thesis
    by simp
qed




text \<open>
  C6. On a ready session whose mutex is free, \<open>generate\<close> takes one of its failure
  returns exactly when the tokenizer reports a negative count for the prompt or the decode
  of the whole prompt reports a status other than 0. It then returns the empty string as
  an ordinary value, the session stays ready with its mutex released, and a later call
  behaves as it would have without the failed one, provided the library's memory clear
  forgets what the failed call left in the context.
\<close>

theorem generate_fails_exactly:
  assumes "is_ready s" and "\<not> mtx_held s"
  shows "((\<exists>e s'. generate_run E s diff = Some (Inl e, s')) \<longleftrightarrow>
      (fst (tokenize_prompt E diff) < 0 \<or>
       fst (llama_decode E (llama_memory_seq_rm E (ctx s) 0 0 (- 1))
              (snd (tokenize_prompt E diff))) \<noteq> 0)) \<and>
    (fst (tokenize_prompt E diff) < 0 \<longrightarrow>
       generate_run E s diff =
         Some (Inl TokenizeFailed, s\<lparr>ctx := llama_memory_seq_rm E (ctx s) 0 0 (- 1)\<rparr>)) \<and>
    (0 \<le> fst (tokenize_prompt E diff) \<and>
     fst (llama_decode E (llama_memory_seq_rm E (ctx s) 0 0 (- 1))
            (snd (tokenize_prompt E diff))) \<noteq> 0 \<longrightarrow>
       generate_run E s diff =
         Some (Inl DecodeFailed,
               s\<lparr>ctx := snd (llama_decode E (llama_memory_seq_rm E (ctx s) 0 0 (- 1))
                                (snd (tokenize_prompt E diff)))\<rparr>)) \<and>
    (\<forall>e s'. generate_run E s diff = Some (Inl e, s') \<longrightarrow>
       generate E s diff = Some ([], s') \<and> is_ready s' \<and> \<not> mtx_held s' \<and>
       (\<forall>diff'. llama_memory_seq_rm E (ctx s') 0 0 (- 1) = llama_memory_seq_rm E (ctx s) 0 0 (- 1)
          \<longrightarrow> generate E s' diff' = generate E s diff'))"
proof (intro conjI allI impI)
  show "(\<exists>e s'. generate_run E s diff = Some (Inl e, s')) \<longleftrightarrow>
      (fst (tokenize_prompt E diff) < 0 \<or>
       fst (llama_decode E (llama_memory_seq_rm E (ctx s) 0 0 (- 1))
              (snd (tokenize_prompt E diff))) \<noteq> 0)"
    using assms by (auto simp: generate_run_def Let_def split: prod.splits)
next
  assume "fst (tokenize_prompt E diff) < 0"
  with assms show "generate_run E s diff =
         Some (Inl TokenizeFailed, s\<lparr>ctx := llama_memory_seq_rm E (ctx s) 0 0 (- 1)\<rparr>)"
    by (auto simp: generate_run_def Let_def split: prod.splits)
next
  assume "0 \<le> fst (tokenize_prompt E diff) \<and>
     fst (llama_decode E (llama_memory_seq_rm E (ctx s) 0 0 (- 1))
            (snd (tokenize_prompt E diff))) \<noteq> 0"
  with assms show "generate_run E s diff =
         Some (Inl DecodeFailed,
               s\<lparr>ctx := snd (llama_decode E (llama_memory_seq_rm E (ctx s) 0 0 (- 1))
                                (snd (tokenize_prompt E diff)))\<rparr>)"
    by (auto simp: generate_run_def Let_def split: prod.splits)
next
  fix e s'
  assume run: "generate_run E s diff = Some (Inl e, s')"
  then show "generate E s diff = Some ([], s')"
    by (simp add: generate_def returned_def)
  from run obtain c where c: "s' = s\<lparr>ctx := c\<rparr>"
    using generate_run_session by blast
  with assms show "is_ready s'" and "\<not> mtx_held s'"
    by (simp_all add: is_ready_def)
  fix diff'
  assume "llama_memory_seq_rm E (ctx s') 0 0 (- 1) = llama_memory_seq_rm E (ctx s) 0 0 (- 1)"
  with c have "llama_memory_seq_rm E c 0 0 (- 1) = llama_memory_seq_rm E (ctx s) 0 0 (- 1)"
    by simp
  with assms(1) have "generate_run E (s\<lparr>ctx := c\<rparr>) diff' = generate_run E s diff'"
    by (rule generate_run_clear_cong)
  with c show "generate E s' diff' = generate E s diff'"
    by (simp add: generate_def)
qed

theorem generate_fails_exactly_witness:
  "is_ready demo_session \<and> \<not> mtx_held demo_session \<and>
   fst (tokenize_prompt (script_engine [frag ''Fix typo''] (- 1, []) 99) ''diff --git'') < 0 \<and>
   generate_run (script_engine [frag ''Fix typo''] (- 1, []) 99) demo_session ''diff --git''
     = Some (Inl TokenizeFailed, demo_session\<lparr>ctx := []\<rparr>) \<and>
   generate (script_engine [frag ''Fix typo''] (- 1, []) 99) demo_session ''diff --git''
     = Some ([], demo_session\<lparr>ctx := []\<rparr>) \<and>
   generate (script_engine [frag ''Fix typo''] (- 1, []) 99) (demo_session\<lparr>ctx := []\<rparr>) ''+++ b''
     = generate (script_engine [frag ''Fix typo''] (- 1, []) 99) demo_session ''+++ b'' \<and>
   generate_run (script_engine [frag ''Fix typo''] (1, [5]) 5) demo_session ''diff --git''
     = Some (Inl DecodeFailed, demo_session\<lparr>ctx := [5]\<rparr>)"
proof -
  let ?E = "script_engine [frag ''Fix typo''] (- 1, []) 99"
  let ?D = "script_engine [frag ''Fix typo''] (1, [5]) 5"
  have h1: "is_ready demo_session"
    by (simp add: is_ready_def demo_session_def)
  have h2: "\<not> mtx_held demo_session"
    by (simp add: demo_session_def)
  have tk: "fst (tokenize_prompt ?E ''diff --git'') < 0"
    by (simp add: tokenize_prompt_def Let_def script_engine_def)
  note T = generate_fails_exactly [OF h1 h2, of ?E "''diff --git''"]
  from T tk have "generate_run ?E demo_session ''diff --git'' =
      Some (Inl TokenizeFailed,
            demo_session\<lparr>ctx := llama_memory_seq_rm ?E (ctx demo_session) 0 0 (- 1)\<rparr>)"
    by blast
  then have run: "generate_run ?E demo_session ''diff --git''
      = Some (Inl TokenizeFailed, demo_session\<lparr>ctx := []\<rparr>)"
    by (simp add: script_engine_def)
  have clr: "llama_memory_seq_rm ?E (ctx (demo_session\<lparr>ctx := []\<rparr>)) 0 0 (- 1)
      = llama_memory_seq_rm ?E (ctx demo_session) 0 0 (- 1)"
    by (simp add: script_engine_def)
  from T run have after: "generate ?E demo_session ''diff --git'' = Some ([], demo_session\<lparr>ctx := []\<rparr>)"
    by blast
  from T run clr have later: "generate ?E (demo_session\<lparr>ctx := []\<rparr>) ''+++ b''
      = generate ?E demo_session ''+++ b''"
    by blast
  have dk: "0 \<le> fst (tokenize_prompt ?D ''diff --git'') \<and>
     fst (llama_decode ?D (llama_memory_seq_rm ?D (ctx demo_session) 0 0 (- 1))
            (snd (tokenize_prompt ?D ''diff --git''))) \<noteq> 0"
    by (simp add: tokenize_prompt_def Let_def script_engine_def vec_resize_def vec_filled_def)
  from generate_fails_exactly [OF h1 h2, of ?D "''diff --git''"] dk
  have "generate_run ?D demo_session ''diff --git'' =
      Some (Inl DecodeFailed,
            demo_session\<lparr>ctx := snd (llama_decode ?D (llama_memory_seq_rm ?D (ctx demo_session) 0 0 (- 1))
                                (snd (tokenize_prompt ?D ''diff --git'')))\<rparr>)"
    by blast
  then have run2: "generate_run ?D demo_session ''diff --git''
      = Some (Inl DecodeFailed, demo_session\<lparr>ctx := [5]\<rparr>)"
    by (simp add: tokenize_prompt_def Let_def script_engine_def vec_resize_def vec_filled_def)
  from h1 h2 tk run after later run2 show ?thesis
    by blast
qed

text \<open>
  C7. Let the prompt be tokenized and decoded and let the decode loop stand at iteration
  \<open>i\<close> in state \<open>st\<close>. If the fragment of the token drawn there is appended without
  meeting a stop condition and the decode of that token then returns a status other than
  0, the loop stops with the result accumulated so far, this fragment included, and the
  call does not fail: \<open>generate\<close> returns that result, cleaned.
\<close>

theorem decode_failure_returns_partial:
  assumes "prompt_decoded E s diff c1"
    and "decode_loop E 0 (loop_init E c1) = decode_loop E i st"
    and "i < 512"
    and "llama_sampler_sample E (ls_sampler st) (ls_ctx st) (- 1) = (tok, smp)"
    and "\<not> llama_vocab_is_eog E tok"
    and "llama_token_to_piece E tok 256 0 True = (len, buf)"
    and "0 \<le> len"
    and "str_find (ls_result st @ take (nat len) buf) stop_str = None"
    and "track_newlines (ls_newlines st) (take (nat len) buf) = (cn, False)"
    and "llama_decode E (ls_ctx st) [tok] = (status, c)"
    and "status \<noteq> 0"
  shows "decode_loop E i st =
      st\<lparr>ls_sampler := smp, ls_samples := Suc (ls_samples st),
         ls_result := ls_result st @ take (nat len) buf, ls_newlines := cn, ls_ctx := c\<rparr> \<and>
    generate_run E s diff =
      Some (Inr (clean_up (ls_result st @ take (nat len) buf)), s\<lparr>ctx := c\<rparr>) \<and>
    generate E s diff = Some (clean_up (ls_result st @ take (nat len) buf), s\<lparr>ctx := c\<rparr>)"
proof -
  let ?st = "st\<lparr>ls_sampler := smp, ls_samples := Suc (ls_samples st),
         ls_result := ls_result st @ take (nat len) buf, ls_newlines := cn, ls_ctx := c\<rparr>"
  have "loop_body E st = Break ?st"
    using assms(4-11) by (rule loop_body_decode_failed)
  with assms(3) have step: "decode_loop E i st = ?st"
    by (rule decode_loop_Break)
  with assms(2) have "decode_loop E 0 (loop_init E c1) = ?st"
    by simp
  with generate_run_decoded [OF assms(1)] step show ?thesis
    by (simp add: generate_def returned_def)
qed

theorem decode_failure_returns_partial_witness:
  "generate (script_engine [frag ''Fix'', frag '' typo'', frag ''s''] (1, [5]) 1)
      demo_session ''diff --git''
     = Some (''Fix typo'', demo_session\<lparr>ctx := [5, 0, 1]\<rparr>) \<and>
   fst (llama_decode (script_engine [frag ''Fix'', frag '' typo'', frag ''s''] (1, [5]) 1) [5, 0] [1])
     = 1"
proof -
  let ?E = "script_engine [frag ''Fix'', frag '' typo'', frag ''s''] (1, [5]) 1"
  let ?st = "\<lparr>ls_ctx = [5, 0], ls_sampler = 1, ls_result = ''Fix'', ls_newlines = 0,
              ls_samples = 1\<rparr> :: (llama_token list, nat) loop_state"
  have h1: "prompt_decoded ?E demo_session ''diff --git'' [5]"
    by (simp add: prompt_decoded_def run_defs)
  have h2: "decode_loop ?E 0 (loop_init ?E [5]) = decode_loop ?E 1 ?st"
    by (simp add: run_defs)
  have h3: "(1::nat) < 512"
    by simp
  have h4: "llama_sampler_sample ?E (ls_sampler ?st) (ls_ctx ?st) (- 1) = (1, 2)"
    by (simp add: script_engine_def)
  have h5: "\<not> llama_vocab_is_eog ?E 1"
    by (simp add: script_engine_def)
  have h6: "llama_token_to_piece ?E 1 256 0 True = (5, '' typo'')"
    by (simp add: script_engine_def frag_def)
  have h7: "(0::int) \<le> 5"
    by simp
  have h8: "str_find (ls_result ?st @ take (nat 5) '' typo'') stop_str = None"
    by (simp add: stop_str_def)
  have h9: "track_newlines (ls_newlines ?st) (take (nat 5) '' typo'') = (0, False)"
    by (simp add: track_newlines_def nl_def tab_def)
  have h10: "llama_decode ?E (ls_ctx ?st) [1] = (1, [5, 0, 1])"
    by (simp add: script_engine_def)
  have h11: "(1::int) \<noteq> 0"
    by simp
  note T = decode_failure_returns_partial [OF h1 h2 h3 h4 h5 h6 h7 h8 h9 h10 h11]
  from T h10 show ?thesis
    by (simp add: clean_up_def trim_trailing.simps dquote_def nl_def)
qed

text \<open>
  C8. Post-processing strips one leading quote and one trailing quote if present, in this
  order, and then trims all trailing newlines and spaces: the code's \<open>clean_up\<close> is the
  specification's \<open>spec_post_process\<close>. The raw output \<open>hello\<close> between two quote
  characters is cleaned to \<open>hello\<close>.
\<close>

theorem clean_up_post_process:
  "clean_up r = spec_post_process r \<and>
   clean_up ([dquote] @ ''hello'' @ [dquote]) = ''hello''"
proof
  show "clean_up r = spec_post_process r"
    by (rule clean_up_spec)
  show "clean_up ([dquote] @ ''hello'' @ [dquote]) = ''hello''"
    by (simp add: clean_up_def dquote_def nl_def trim_trailing.simps)
qed

text \<open>
  C9. The text that \<open>generate\<close> hands to the tokenizer is the template around the
  first 4000 characters of the diff, and the run of \<open>generate\<close> is the run on the
  tokens of that text. Two diffs give the same prompt exactly when their first 4000
  characters agree, and then the same run; so a diff of 5000 characters and its first 4000
  characters give the same prompt and the same run.
\<close>

theorem generate_truncates_diff:
  "tokenize_prompt E diff =
     (case llama_tokenize E (spec_prompt diff) (length (spec_prompt diff) + 16) True True of
        (n_tokens, written) \<Rightarrow>
          (n_tokens, vec_resize (vec_filled (length (spec_prompt diff) + 16) written) (nat n_tokens))) \<and>
   (is_ready s \<and> \<not> mtx_held s \<longrightarrow>
    generate_run E s diff =
     (case llama_tokenize E (spec_prompt diff) (length (spec_prompt diff) + 16) True True of
        (n_tokens, written) \<Rightarrow>
          if n_tokens < 0
          then Some (Inl TokenizeFailed, s\<lparr>ctx := llama_memory_seq_rm E (ctx s) 0 0 (- 1)\<rparr>)
          else
            case llama_decode E (llama_memory_seq_rm E (ctx s) 0 0 (- 1))
                   (vec_resize (vec_filled (length (spec_prompt diff) + 16) written) (nat n_tokens)) of
              (status, c1) \<Rightarrow>
                if status \<noteq> 0 then Some (Inl DecodeFailed, s\<lparr>ctx := c1\<rparr>)
                else Some (Inr (clean_up (ls_result (decode_loop E 0 (loop_init E c1)))),
                           s\<lparr>ctx := ls_ctx (decode_loop E 0 (loop_init E c1))\<rparr>))) \<and>
   (spec_prompt diff = spec_prompt diff' \<longleftrightarrow> take 4000 diff = take 4000 diff') \<and>
   (take 4000 diff = take 4000 diff' \<longrightarrow> generate E s diff = generate E s diff') \<and>
   generate E s diff = generate E s (take 4000 diff)"
proof (intro conjI impI)
  show tk: "tokenize_prompt E d =
     (case llama_tokenize E (spec_prompt d) (length (spec_prompt d) + 16) True True of
        (n_tokens, written) \<Rightarrow>
          (n_tokens, vec_resize (vec_filled (length (spec_prompt d) + 16) written) (nat n_tokens)))" for d
    by (rule tokenize_prompt_spec)
  show "spec_prompt diff = spec_prompt diff' \<longleftrightarrow> take 4000 diff = take 4000 diff'"
    by (rule spec_prompt_eq_iff)
  have same: "generate E s d = generate E s d'" if "take 4000 d = take 4000 d'" for d d'
  proof -
    from that have "spec_prompt d = spec_prompt d'"
      by (simp add: spec_prompt_eq_iff)
    then have "tokenize_prompt E d = tokenize_prompt E d'"
      by (simp add: tk)
    then show ?thesis
      by (simp add: generate_def generate_run_def)
  qed
  show "generate E s diff = generate E s diff'" if "take 4000 diff = take 4000 diff'"
    using that by (rule same)
  show "generate E s diff = generate E s (take 4000 diff)"
    by (rule same) simp
next
  assume "is_ready s \<and> \<not> mtx_held s"
  then show "generate_run E s diff =
     (case llama_tokenize E (spec_prompt diff) (length (spec_prompt diff) + 16) True True of
        (n_tokens, written) \<Rightarrow>
          if n_tokens < 0
          then Some (Inl TokenizeFailed, s\<lparr>ctx := llama_memory_seq_rm E (ctx s) 0 0 (- 1)\<rparr>)
          else
            case llama_decode E (llama_memory_seq_rm E (ctx s) 0 0 (- 1))
                   (vec_resize (vec_filled (length (spec_prompt diff) + 16) written) (nat n_tokens)) of
              (status, c1) \<Rightarrow>
                if status \<noteq> 0 then Some (Inl DecodeFailed, s\<lparr>ctx := c1\<rparr>)
                else Some (Inr (clean_up (ls_result (decode_loop E 0 (loop_init E c1)))),
                           s\<lparr>ctx := ls_ctx (decode_loop E 0 (loop_init E c1))\<rparr>))"
    by (simp add: generate_run_def tokenize_prompt_spec Let_def split: prod.splits)
qed

theorem generate_truncates_diff_witness:
  "is_ready demo_session \<and> \<not> mtx_held demo_session \<and>
   take 4000 (replicate 5000 CHR ''x'') = take 4000 (replicate 4000 CHR ''x'') \<and>
   length (spec_prompt (replicate 5000 CHR ''x'')) = 4705 \<and>
   generate_run measuring_engine demo_session (replicate 5000 CHR ''x'')
     = Some (Inr ''ok'', demo_session\<lparr>ctx := [4705, 0]\<rparr>) \<and>
   generate measuring_engine demo_session (replicate 5000 CHR ''x'')
     = generate measuring_engine demo_session (replicate 4000 CHR ''x'') \<and>
   generate_run measuring_engine demo_session (replicate 3999 CHR ''x'')
     = Some (Inr ''ok'', demo_session\<lparr>ctx := [4704, 0]\<rparr>)"
proof -
  let ?E = measuring_engine
  have h: "is_ready demo_session \<and> \<not> mtx_held demo_session"
    by (simp add: is_ready_def demo_session_def)
  have t: "take 4000 (replicate 5000 CHR ''x'') = take 4000 (replicate 4000 CHR ''x'')"
    by simp
  have l5: "length (spec_prompt (replicate 5000 CHR ''x'')) = 4705"
    by (simp add: spec_prompt_def length_prompt_template)
  have l3: "length (spec_prompt (replicate 3999 CHR ''x'')) = 4704"
    by (simp add: spec_prompt_def length_prompt_template)
  have tk: "llama_tokenize ?E p n True True = (1, [int (length p)])" for p n
    by (simp add: measuring_engine_def script_engine_def)
  have clr: "llama_memory_seq_rm ?E c 0 0 (- 1) = []" for c
    by (simp add: measuring_engine_def script_engine_def)
  have dc: "llama_decode ?E [] [k] = (if k = 99 then 1 else 0, [k])" for k
    by (auto simp: measuring_engine_def script_engine_def)
  have loop: "decode_loop ?E 0 (loop_init ?E [k]) =
      \<lparr>ls_ctx = [k, 0], ls_sampler = 2, ls_result = ''ok'', ls_newlines = 0, ls_samples = 2\<rparr>" for k
    by (simp add: measuring_engine_def run_defs)
  have cl: "clean_up ''ok'' = ''ok''"
    by (simp add: clean_up_def trim_trailing.simps dquote_def nl_def)
  have vec: "vec_resize (vec_filled (Suc n) [k]) (nat 1) = [k]" for n k
    by (simp add: vec_resize_def vec_filled_def)
  note T5 = generate_truncates_diff [of ?E "replicate 5000 CHR ''x''" demo_session
      "replicate 4000 CHR ''x''"]
  note T3 = generate_truncates_diff [of ?E "replicate 3999 CHR ''x''" demo_session
      "replicate 3999 CHR ''x''"]
  from T5 h have "generate_run ?E demo_session (replicate 5000 CHR ''x'') =
     (case llama_tokenize ?E (spec_prompt (replicate 5000 CHR ''x''))
             (length (spec_prompt (replicate 5000 CHR ''x'')) + 16) True True of
        (n_tokens, written) \<Rightarrow>
          if n_tokens < 0
          then Some (Inl TokenizeFailed, demo_session\<lparr>ctx := llama_memory_seq_rm ?E (ctx demo_session) 0 0 (- 1)\<rparr>)
          else
            case llama_decode ?E (llama_memory_seq_rm ?E (ctx demo_session) 0 0 (- 1))
                   (vec_resize (vec_filled (length (spec_prompt (replicate 5000 CHR ''x'')) + 16) written) (nat n_tokens)) of
              (status, c1) \<Rightarrow>
                if status \<noteq> 0 then Some (Inl DecodeFailed, demo_session\<lparr>ctx := c1\<rparr>)
                else Some (Inr (clean_up (ls_result (decode_loop ?E 0 (loop_init ?E c1)))),
                           demo_session\<lparr>ctx := ls_ctx (decode_loop ?E 0 (loop_init ?E c1))\<rparr>))"
    by blast
  then have r5: "generate_run ?E demo_session (replicate 5000 CHR ''x'')
     = Some (Inr ''ok'', demo_session\<lparr>ctx := [4705, 0]\<rparr>)"
    by (simp add: tk clr l5 vec [of 4720, simplified] dc loop cl)
  from T5 t have e: "generate ?E demo_session (replicate 5000 CHR ''x'')
     = generate ?E demo_session (replicate 4000 CHR ''x'')"
    by blast
  from T3 h have "generate_run ?E demo_session (replicate 3999 CHR ''x'') =
     (case llama_tokenize ?E (spec_prompt (replicate 3999 CHR ''x''))
             (length (spec_prompt (replicate 3999 CHR ''x'')) + 16) True True of
        (n_tokens, written) \<Rightarrow>
          if n_tokens < 0
          then Some (Inl TokenizeFailed, demo_session\<lparr>ctx := llama_memory_seq_rm ?E (ctx demo_session) 0 0 (- 1)\<rparr>)
          else
            case llama_decode ?E (llama_memory_seq_rm ?E (ctx demo_session) 0 0 (- 1))
                   (vec_resize (vec_filled (length (spec_prompt (replicate 3999 CHR ''x'')) + 16) written) (nat n_tokens)) of
              (status, c1) \<Rightarrow>
                if status \<noteq> 0 then Some (Inl DecodeFailed, demo_session\<lparr>ctx := c1\<rparr>)
                else Some (Inr (clean_up (ls_result (decode_loop ?E 0 (loop_init ?E c1)))),
                           demo_session\<lparr>ctx := ls_ctx (decode_loop ?E 0 (loop_init ?E c1))\<rparr>))"
    by blast
  then have r3: "generate_run ?E demo_session (replicate 3999 CHR ''x'')
     = Some (Inr ''ok'', demo_session\<lparr>ctx := [4704, 0]\<rparr>)"
    by (simp add: tk clr l3 vec [of 4719, simplified] dc loop cl)
  from h t l5 r5 e r3 show ?thesis
    by blast
qed

text \<open>
  C10. The decode loop draws at most 512 tokens, from any iteration \<open>i\<close> and any state
  at most \<open>512 - i\<close> more, whatever the engine returns; with an engine that never meets
  a stop condition it draws exactly 512. The loop is a total function, so a call of
  \<open>generate\<close> that is not suspended at the mutex returns.
\<close>

theorem decode_loop_bounded:
  assumes "\<not> mtx_held s"
  shows "ls_samples (decode_loop E i st) \<le> ls_samples st + (512 - i) \<and>
    ls_samples (decode_loop E 0 (loop_init E c)) \<le> 512 \<and>
    (\<exists>out s'. generate E s diff = Some (out, s')) \<and>
    ls_samples (decode_loop babble_engine 0 (loop_init babble_engine c0)) = 512"
proof (intro conjI)
  show "ls_samples (decode_loop E i st) \<le> ls_samples st + (512 - i)"
    by (rule decode_loop_samples)
  show "ls_samples (decode_loop E 0 (loop_init E c)) \<le> 512"
    using decode_loop_samples [of E 0 "loop_init E c"] by (simp add: loop_init_def)
  show "\<exists>out s'. generate E s diff = Some (out, s')"
    using assms generate_returns [of E s diff] by (cases "generate E s diff") auto
  show "ls_samples (decode_loop babble_engine 0 (loop_init babble_engine c0)) = 512"
    using babble_loop [of "loop_init babble_engine c0" 0] by (simp add: loop_init_def)
qed

theorem decode_loop_bounded_witness:
  "\<not> mtx_held demo_session \<and>
   ls_samples (decode_loop babble_engine 0 (loop_init babble_engine [5])) \<le> 512 \<and>
   (\<exists>out s'. generate babble_engine demo_session ''diff --git'' = Some (out, s')) \<and>
   ls_samples (decode_loop babble_engine 0 (loop_init babble_engine [5])) = 512"
proof -
  have h: "\<not> mtx_held demo_session"
    by (simp add: demo_session_def)
  show ?thesis
    using h decode_loop_bounded [OF h, of babble_engine 0 "loop_init babble_engine [5]" "[5]"
        "''diff --git''" "[5]"]
    by blast
qed

end
